theory Spec2Isabelle
  imports Main "HOL-Library.Word"
begin

section \<open>Errors\<close>

text \<open>
  Values of the errors package: a constant error (\<^verbatim>\<open>errors.Const\<close>), an error
  wrapped with a message (\<^verbatim>\<open>errors.Wrap\<close>), an error carrying key and value
  tags (\<^verbatim>\<open>errors.Ctx().Str(k, v)\<close> ... \<^verbatim>\<open>.Just(e)\<close> or \<^verbatim>\<open>.Wrap(e, msg)\<close>),
  and the errors that come from outside: of the engine client and of \<^verbatim>\<open>net.ParseCIDR\<close>.
\<close>

datatype err =
    EngineError string
  | ParseError string
  | Const string
  | Wrap err string
  | ErrCtx "(string \<times> string) list" err

definition ErrContainerExitedBeforeReady :: err where
  "ErrContainerExitedBeforeReady = Const ''container exited before ready''"

definition ErrContainerAlreadyStoped :: err where
  "ErrContainerAlreadyStoped = Const ''container already stopped''"

definition ErrContainerDidntStart :: err where
  "ErrContainerDidntStart = Const ''container did not start''"

definition StartTimeoutFactorEnvar :: string where
  "StartTimeoutFactorEnvar = ''DEBUG_START_TIMEOUT_FACTOR''"

section \<open>Subnet allocator (network.go)\<close>

subsection \<open>Networks and their CIDR strings\<close>

text \<open>
  A \<^verbatim>\<open>net.IPNet\<close> holding an IPv4 network: the four address bytes and the mask.
  Every mask the allocator builds (\<^verbatim>\<open>net.IPv4Mask(255, 240, 0, 0)\<close>,
  \<^verbatim>\<open>(255, 255, 0, 0)\<close>, \<^verbatim>\<open>(255, 255, 255, 0)\<close>) and every mask
  \<^verbatim>\<open>net.ParseCIDR\<close> returns is a prefix mask, so the mask is kept as the
  number of its leading one bits, which is what \<^verbatim>\<open>Mask.Size()\<close> returns.
\<close>

type_synonym byte = "8 word"

record IPNet =
  b0 :: byte
  b1 :: byte
  b2 :: byte
  b3 :: byte
  ones :: nat

definition IPv4 :: "byte \<Rightarrow> byte \<Rightarrow> byte \<Rightarrow> byte \<Rightarrow> nat \<Rightarrow> IPNet" where
  "IPv4 a b c d m = \<lparr>b0 = a, b1 = b, b2 = c, b3 = d, ones = m\<rparr>"

definition digits :: string where
  "digits = ''0123456789''"

text \<open>Decimal rendering of an unsigned number, as \<^verbatim>\<open>uitoa\<close> of package net.\<close>

fun uitoa :: "nat \<Rightarrow> string" where
  "uitoa n = (if n < 10 then [digits ! n] else uitoa (n div 10) @ [digits ! (n mod 10)])"

declare uitoa.simps [simp del]

text \<open>\<^verbatim>\<open>IPNet.String()\<close>: dotted quad, a slash, the prefix length.\<close>

definition String :: "IPNet \<Rightarrow> string" where
  "String n = uitoa (unat (b0 n)) @ CHR ''.'' # uitoa (unat (b1 n)) @ CHR ''.'' #
              uitoa (unat (b2 n)) @ CHR ''.'' # uitoa (unat (b3 n)) @ CHR ''/'' # uitoa (ones n)"

subsection \<open>Allocator state\<close>

record NetworksAllocator =
  addr :: IPNet
  used :: "string \<rightharpoonup> nat"

text \<open>
  \<^verbatim>\<open>NewNetworkAllocator\<close>. The argument is the comma-separated content of the
  environment variable \<^verbatim>\<open>RESERVED_NETWORKS\<close>, each entry paired with what
  \<^verbatim>\<open>net.ParseCIDR\<close> returns for it (\<open>None\<close> for a parse error); the
  empty list stands for the unset or empty variable.
\<close>

fun reserve :: "(string \<rightharpoonup> nat) \<Rightarrow> (string \<times> IPNet option) list \<Rightarrow> err + (string \<rightharpoonup> nat)" where
  "reserve u [] = Inr u"
| "reserve u ((s, None) # rest) = Inl (ErrCtx [(''parsed'', s)] (Wrap (ParseError s) ''parse reserved network''))"
| "reserve u ((s, Some r) # rest) = reserve (u(String r \<mapsto> ones r)) rest"

definition NewNetworkAllocator :: "(string \<times> IPNet option) list \<Rightarrow> err + NetworksAllocator" where
  "NewNetworkAllocator reserved =
     (case reserve Map.empty reserved of
        Inl e \<Rightarrow> Inl e
      | Inr u \<Rightarrow> Inr \<lparr>addr = IPv4 172 16 0 0 12, used = u\<rparr>)"

text \<open>
  \<^verbatim>\<open>getUsedNetworks\<close>: the argument is the result of \<^verbatim>\<open>client.NetworkList\<close>.
\<close>

fun fold_networks :: "(string \<rightharpoonup> nat) \<Rightarrow> IPNet list \<Rightarrow> (string \<rightharpoonup> nat)" where
  "fold_networks u [] = u"
| "fold_networks u (n # ns) = fold_networks (u(String n \<mapsto> ones n)) ns"

definition getUsedNetworks :: "err + IPNet list \<Rightarrow> NetworksAllocator \<Rightarrow> err + NetworksAllocator" where
  "getUsedNetworks nl na =
     (case nl of
        Inl e \<Rightarrow> Inl (Wrap e ''get client networks list'')
      | Inr ns \<Rightarrow> Inr (na\<lparr>used := fold_networks (used na) ns\<rparr>))"

text \<open>
  The inner loop of \<^verbatim>\<open>GetFreeSubnet\<close>, \<^verbatim>\<open>for si := 0; si < 255; si++\<close>:
  the first /24 of the zone whose string is not a key of the used table.
\<close>

function scanSubnets :: "(string \<rightharpoonup> nat) \<Rightarrow> byte \<Rightarrow> byte \<Rightarrow> nat \<Rightarrow> IPNet option" where
  "scanSubnets u a g si =
     (if si < 255 then
        (let subnet = IPv4 a g (of_nat si) 0 24 in
         if u (String subnet) = None then Some subnet
         else scanSubnets u a g (si + 1))
      else None)"
  by pat_completeness auto
termination
  by (relation "measure (\<lambda>(u, a, g, si). 255 - si)") auto

declare scanSubnets.simps [simp del]

text \<open>
  The outer loop, \<^verbatim>\<open>for ni := int(IP[1]); ni < int(IP[1])+max; ni++\<close> with
  \<^verbatim>\<open>max\<close> the number of one bits of the supernet's mask. A zone is entered
  unless the used table holds its string with the value 16.
\<close>

function scanZones :: "NetworksAllocator \<Rightarrow> nat \<Rightarrow> IPNet option" where
  "scanZones na ni =
     (if ni < unat (b1 (addr na)) + ones (addr na) then
        (let global = IPv4 (b0 (addr na)) (of_nat ni) 0 0 16 in
         if (case used na (String global) of None \<Rightarrow> True | Some sz \<Rightarrow> sz \<noteq> 16) then
           (case scanSubnets (used na) (b0 (addr na)) (b1 global) 0 of
              Some subnet \<Rightarrow> Some subnet
            | None \<Rightarrow> scanZones na (ni + 1))
         else scanZones na (ni + 1))
      else None)"
  by pat_completeness auto
termination
  by (relation "measure (\<lambda>(na, ni). unat (b1 (addr na)) + ones (addr na) - ni)") auto

declare scanZones.simps [simp del]

text \<open>
  \<^verbatim>\<open>GetFreeSubnet\<close>, run under the allocator's lock: refresh, scan, reserve.
  The result is the returned pair (error, or the subnet, \<open>None\<close> for the nil
  subnet) together with the allocator afterwards.
\<close>

definition GetFreeSubnet :: "err + IPNet list \<Rightarrow> NetworksAllocator \<Rightarrow> (err + IPNet option) \<times> NetworksAllocator" where
  "GetFreeSubnet nl na =
     (case getUsedNetworks nl na of
        Inl e \<Rightarrow> (Inl (Wrap e ''get used networks''), na)
      | Inr na1 \<Rightarrow>
          (case scanZones na1 (unat (b1 (addr na1))) of
             Some subnet \<Rightarrow> (Inr (Some subnet), na1\<lparr>used := (used na1)(String subnet \<mapsto> 24)\<rparr>)
           | None \<Rightarrow> (Inr None, na1)))"

text \<open>A sequence of calls on one allocator, each with what the engine lists at that time.\<close>

fun allocs :: "NetworksAllocator \<Rightarrow> (err + IPNet list) list \<Rightarrow> (err + IPNet option) list" where
  "allocs na [] = []"
| "allocs na (nl # nls) = (case GetFreeSubnet nl na of (r, na') \<Rightarrow> r # allocs na' nls)"

subsection \<open>Overlap of networks\<close>

definition address :: "IPNet \<Rightarrow> nat" where
  "address n = ((unat (b0 n) * 256 + unat (b1 n)) * 256 + unat (b2 n)) * 256 + unat (b3 n)"

text \<open>An address (a number below \<open>2 ^ 32\<close>) lies in a network when the prefix agrees.\<close>

definition contains :: "IPNet \<Rightarrow> nat \<Rightarrow> bool" where
  "contains n a = (a div 2 ^ (32 - ones n) = address n div 2 ^ (32 - ones n))"

definition overlaps :: "IPNet \<Rightarrow> IPNet \<Rightarrow> bool" where
  "overlaps n m = (let k = 32 - min (ones n) (ones m) in address n div 2 ^ k = address m div 2 ^ k)"

text \<open>What \<^verbatim>\<open>net.ParseCIDR\<close> guarantees of the network it returns: the host bits are zero.\<close>

definition canonical :: "IPNet \<Rightarrow> bool" where
  "canonical n = (ones n \<le> 32 \<and> address n mod 2 ^ (32 - ones n) = 0)"

text \<open>
  A client of the allocator: construct it from the reserved list, then call
  \<^verbatim>\<open>GetFreeSubnet\<close> once per element of the second list.
\<close>

definition session :: "(string \<times> IPNet option) list \<Rightarrow> (err + IPNet list) list \<Rightarrow> err + (err + IPNet option) list" where
  "session reserved nls =
     (case NewNetworkAllocator reserved of Inl e \<Rightarrow> Inl e | Inr na \<Rightarrow> Inr (allocs na nls))"

text \<open>The table holds a network under its string with its own prefix length.\<close>

definition blocked :: "(string \<rightharpoonup> nat) \<Rightarrow> IPNet \<Rightarrow> bool" where
  "blocked u n = (u (String n) = Some (ones n))"

text \<open>The test that lets the outer loop enter zone \<open>z\<close>.\<close>

definition entered :: "(string \<rightharpoonup> nat) \<Rightarrow> byte \<Rightarrow> nat \<Rightarrow> bool" where
  "entered u a z = (u (String (IPv4 a (of_nat z) 0 0 16)) \<noteq> Some 16)"

text \<open>All sixteen /16 zones of 172.16.0.0/12, as a reserved list.\<close>

definition all_zones_reserved :: "(string \<times> IPNet option) list" where
  "all_zones_reserved =
     [(''172.16.0.0/16'', Some (IPv4 172 16 0 0 16)), (''172.17.0.0/16'', Some (IPv4 172 17 0 0 16)),
      (''172.18.0.0/16'', Some (IPv4 172 18 0 0 16)), (''172.19.0.0/16'', Some (IPv4 172 19 0 0 16)),
      (''172.20.0.0/16'', Some (IPv4 172 20 0 0 16)), (''172.21.0.0/16'', Some (IPv4 172 21 0 0 16)),
      (''172.22.0.0/16'', Some (IPv4 172 22 0 0 16)), (''172.23.0.0/16'', Some (IPv4 172 23 0 0 16)),
      (''172.24.0.0/16'', Some (IPv4 172 24 0 0 16)), (''172.25.0.0/16'', Some (IPv4 172 25 0 0 16)),
      (''172.26.0.0/16'', Some (IPv4 172 26 0 0 16)), (''172.27.0.0/16'', Some (IPv4 172 27 0 0 16)),
      (''172.28.0.0/16'', Some (IPv4 172 28 0 0 16)), (''172.29.0.0/16'', Some (IPv4 172 29 0 0 16)),
      (''172.30.0.0/16'', Some (IPv4 172 30 0 0 16)), (''172.31.0.0/16'', Some (IPv4 172 31 0 0 16))]"

section \<open>Ports (port.go)\<close>

type_synonym PortName = string
type_synonym Port = string

record PortBinding =
  HostIP :: string
  HostPort :: string

record PortBind =
  BindName :: PortName
  Container :: Port
  Host :: "16 word"

text \<open>\<^verbatim>\<open>strings.Split\<close> with a separator of one byte.\<close>

fun split_from :: "char \<Rightarrow> string \<Rightarrow> string \<Rightarrow> string list" where
  "split_from sep acc [] = [rev acc]"
| "split_from sep acc (c # cs) =
     (if c = sep then rev acc # split_from sep [] cs else split_from sep (c # acc) cs)"

definition Split :: "string \<Rightarrow> char \<Rightarrow> string list" where
  "Split s sep = split_from sep [] s"

definition splitProtoPort :: "string \<Rightarrow> string \<times> string" where
  "splitProtoPort rawPort =
     (let parts = Split rawPort (CHR ''/''); l = length parts in
      if length rawPort = 0 \<or> l = 0 \<or> length (parts ! 0) = 0 then ('''', '''')
      else if l = 1 then (''tcp'', rawPort)
      else if length (parts ! 1) = 0 then (''tcp'', parts ! 0)
      else (parts ! 1, parts ! 0))"

definition Port_of :: "Port \<Rightarrow> string" where
  "Port_of p = snd (splitProtoPort p)"

definition Proto :: "Port \<Rightarrow> string" where
  "Proto p = fst (splitProtoPort p)"

text \<open>\<^verbatim>\<open>strconv.Itoa\<close> and \<^verbatim>\<open>%d\<close> of a signed integer.\<close>

definition Itoa :: "int \<Rightarrow> string" where
  "Itoa i = (if i < 0 then CHR ''-'' # uitoa (nat (- i)) else uitoa (nat i))"

text \<open>\<^verbatim>\<open>PortBinds.Names\<close>: the later binding wins where two bindings share a key.\<close>

fun Names_from :: "(string \<rightharpoonup> PortName) \<Rightarrow> PortBind list \<Rightarrow> (string \<rightharpoonup> PortName)" where
  "Names_from names [] = names"
| "Names_from names (b # pb) =
     Names_from (names(Port_of (Container b) \<mapsto> BindName b, Itoa (uint (Host b)) \<mapsto> BindName b)) pb"

definition Names :: "PortBind list \<Rightarrow> (string \<rightharpoonup> PortName)" where
  "Names pb = Names_from Map.empty pb"

section \<open>The container controller (container.go)\<close>

subsection \<open>Data\<close>

type_synonym AddrsMap = "PortName \<rightharpoonup> string"

record EndpointSettings =
  EndpointIPAddress :: string

text \<open>
  \<^verbatim>\<open>ContainerInfo\<close>. \<^verbatim>\<open>PortBinds\<close> is a Go map; the list gives its entries in the
  order in which the \<^verbatim>\<open>range\<close> loop of \<^verbatim>\<open>StartContainer\<close> visits them.
\<close>

record ContainerInfo =
  ID :: string
  IPAddress :: string
  PortBinds :: "(Port \<times> PortBinding list) list"
  Networks :: "string \<rightharpoonup> EndpointSettings"

record ContainerStatus =
  StatusCode :: "64 word"
  StatusError :: "err option"

record OrchestratorInfo =
  OrchID :: string
  OrchTypeID :: "8 word"
  ContainerEnpoints :: AddrsMap
  HostEnpoints :: AddrsMap

text \<open>
  \<^verbatim>\<open>ports.DebugPort\<close> belongs to another module; the controller uses its methods
  \<^verbatim>\<open>Enabled()\<close>, \<^verbatim>\<open>Port()\<close>, \<^verbatim>\<open>Command()\<close> and its \<^verbatim>\<open>%s\<close> rendering.
\<close>

record DebugPort =
  Enabled :: bool
  PortNumber :: nat
  Command :: string
  Shown :: string

text \<open>An \<^verbatim>\<open>io.Writer\<close>: whether a write to it succeeds.\<close>

datatype writer = Writer (accepts: bool)

datatype go_context = BackgroundContext | CallerContext

text \<open>A readiness probe: the controller's own \<^verbatim>\<open>ready\<close>, or one set by the caller.\<close>

datatype ReadyFunc = default_ready | caller_ready

text \<open>
  \<^verbatim>\<open>BaseContainer\<close>. The collaborators behind interfaces (\<^verbatim>\<open>client\<close>,
  \<^verbatim>\<open>ConfController\<close>) are not fields here: what they answer is an argument of the
  operation that asks them, and what they are asked is an event. Of \<^verbatim>\<open>network\<close>
  the controller reads \<^verbatim>\<open>Name()\<close>. The mutex is not a field: \<^verbatim>\<open>Stop\<close> is
  the only code that takes it.
\<close>

record BaseContainer =
  Ctx :: "go_context option"
  Ready :: "ReadyFunc option"
  OutputStream :: "writer option"
  ErrorStream :: "writer option"
  Name :: string
  TypeID :: "8 word"
  Image :: string
  EntryPoint :: string
  networkName :: string
  containerID :: string
  hostIP :: string
  ContainerIP :: string
  Cmd :: "string list"
  Mounts :: "string list"
  Envs :: "string list"
  Volumes :: "string list"
  Sysctls :: "string \<rightharpoonup> string"
  DebugPort :: DebugPort
  Ports :: "PortBind list"
  portnames :: "string \<rightharpoonup> PortName"
  StartTimeout :: "64 word"
  Autoremove :: bool
  NotBindPorts :: bool
  Background :: bool
  containerAddress :: AddrsMap
  hostAddress :: AddrsMap
  stopped :: bool

text \<open>What a call does to the world outside the controller, in order.\<close>

datatype event =
    Stdout string
  | Stderr string
  | StderrError "err option" "string list"
  | OsStdout string
  | EngineCreate
  | EngineStart string string
  | EngineStop string "64 word"
  | StreamLogsStarted string
  | WaitStarted string
  | NetworkAddContainer OrchestratorInfo
  | CloseReady
  | CancelLogs

text \<open>How a call ends: it returns, it panics, or it waits forever.\<close>

datatype 'a outcome = Returned 'a | Panic string | Blocks

definition NewBaseContainer :: "string \<Rightarrow> string \<Rightarrow> BaseContainer" where
  "NewBaseContainer nwName nwHostIP =
     \<lparr>Ctx = None, Ready = None, OutputStream = None, ErrorStream = None, Name = '''', TypeID = 0,
      Image = '''', EntryPoint = '''', networkName = nwName, containerID = '''', hostIP = nwHostIP,
      ContainerIP = '''', Cmd = [], Mounts = [], Envs = [], Volumes = [],
      Sysctls = [''net.ipv4.ip_forward'' \<mapsto> ''1''], DebugPort = \<lparr>Enabled = False, PortNumber = 0, Command = '''', Shown = ''''\<rparr>,
      Ports = [], portnames = Map.empty, StartTimeout = 0, Autoremove = False, NotBindPorts = False,
      Background = False, containerAddress = Map.empty, hostAddress = Map.empty, stopped = False\<rparr>"

definition GetName :: "BaseContainer \<Rightarrow> string" where
  "GetName c = Name c"

subsection \<open>Log helpers\<close>

definition newline :: string where
  "newline = [CHR 0x0A]"

text \<open>
  \<^verbatim>\<open>LogStdout\<close> and \<^verbatim>\<open>LogStderr\<close>, applied to the formatted message: the value
  returned and the write made.
\<close>

definition LogStdout :: "BaseContainer \<Rightarrow> string \<Rightarrow> bool \<times> event list" where
  "LogStdout c msg =
     (case OutputStream c of
        None \<Rightarrow> (False, [])
      | Some w \<Rightarrow> (accepts w, [Stdout (msg @ newline)]))"

definition LogStderr :: "BaseContainer \<Rightarrow> string \<Rightarrow> bool \<times> event list" where
  "LogStderr c msg =
     (case ErrorStream c of
        None \<Rightarrow> (False, [])
      | Some w \<Rightarrow> (accepts w, [Stderr (msg @ newline)]))"

text \<open>
  \<^verbatim>\<open>LogError\<close>: the text is made by \<^verbatim>\<open>errors.Formatted\<close>, so the event keeps
  the error and the arguments.
\<close>

definition LogError :: "BaseContainer \<Rightarrow> err option \<Rightarrow> string list \<Rightarrow> bool \<times> event list" where
  "LogError c e args =
     (case ErrorStream c of
        None \<Rightarrow> (False, [])
      | Some w \<Rightarrow> (accepts w, [StderrError e args]))"

subsection \<open>Stop\<close>

text \<open>
  \<^verbatim>\<open>Stop\<close>. The first argument is what \<^verbatim>\<open>client.ContainerStop\<close> answers if
  it is called. The test and the setting of the flag happen under the mutex, so calls
  are ordered by the order in which they take it.
\<close>

definition Stop :: "err option \<Rightarrow> BaseContainer \<Rightarrow> err option \<times> BaseContainer \<times> event list" where
  "Stop answer c =
     (if stopped c then
        (Some (ErrCtx [(''container-id'', containerID c), (''container-name'', GetName c)]
                 ErrContainerAlreadyStoped), c, [])
      else (answer, c\<lparr>stopped := True\<rparr>, [EngineStop (containerID c) 0]))"

text \<open>Calls of \<^verbatim>\<open>Stop\<close> one after the other, each with the engine's answer for it.\<close>

fun Stops :: "err option list \<Rightarrow> BaseContainer \<Rightarrow> err option list \<times> BaseContainer \<times> event list" where
  "Stops [] c = ([], c, [])"
| "Stops (answer # answers) c =
     (case Stop answer c of (r, c1, ev1) \<Rightarrow>
        (case Stops answers c1 of (rs, c2, ev2) \<Rightarrow> (r # rs, c2, ev1 @ ev2)))"

subsection \<open>The exit-wait task\<close>

text \<open>
  What the \<^verbatim>\<open>select\<close> of \<^verbatim>\<open>wait\<close> receives: an error from the engine's
  error channel, or a status from its status channel.
\<close>

datatype wait_outcome = ErrCh err | WaitCh ContainerStatus

text \<open>\<^verbatim>\<open>wait\<close>: the value sent on the exit channel, and what is logged before.\<close>

definition wait :: "BaseContainer \<Rightarrow> wait_outcome \<Rightarrow> err option \<times> event list" where
  "wait c w =
     (case w of
        ErrCh e \<Rightarrow>
          (Some (ErrCtx [(''container-name'', GetName c)] (Wrap e ''container process exited with error'')), [])
      | WaitCh status \<Rightarrow>
          (let exitMsg = ''container exited with status: '' @ Itoa (sint (StatusCode status)) in
           (None, if StatusError status \<noteq> None then snd (LogError c (StatusError status) [])
                  else snd (LogStdout c exitMsg))))"

subsection \<open>The default readiness probe\<close>

text \<open>
  Time in nanoseconds, as \<^verbatim>\<open>time.Duration\<close>. The task of \<^verbatim>\<open>ready\<close> waits
  in a \<^verbatim>\<open>select\<close> on the context and on a timer of five seconds; the case
  taken is the one whose channel is ready first, and either when both are ready at
  the same instant. The first argument is the instant, counted from the entry into
  the \<^verbatim>\<open>select\<close>, at which the context is cancelled, if ever.
\<close>

definition Second :: nat where
  "Second = 1000000000"

datatype ready_case = CtxDone | TimeAfter

definition ready_select :: "nat option \<Rightarrow> bool \<Rightarrow> ready_case" where
  "ready_select cancelled_at tie =
     (case cancelled_at of
        None \<Rightarrow> TimeAfter
      | Some t \<Rightarrow>
          if t < 5 * Second then CtxDone
          else if 5 * Second < t then TimeAfter
          else if tie then CtxDone else TimeAfter)"

text \<open>\<^verbatim>\<open>ready\<close>: the instant at which the returned channel is closed, if ever.\<close>

definition ready :: "nat option \<Rightarrow> bool \<Rightarrow> nat option" where
  "ready cancelled_at tie =
     (case ready_select cancelled_at tie of
        CtxDone \<Rightarrow> None
      | TimeAfter \<Rightarrow> Some (5 * Second))"

subsection \<open>Debug mode\<close>

text \<open>\<^verbatim>\<open>strconv.Atoi\<close> with a 64-bit \<^verbatim>\<open>int\<close>; \<open>None\<close> is its error.\<close>

fun digits_value :: "nat \<Rightarrow> string \<Rightarrow> nat option" where
  "digits_value acc [] = Some acc"
| "digits_value acc (c # cs) =
     (if (48::nat) \<le> of_char c \<and> of_char c \<le> (57::nat)
      then digits_value (acc * 10 + (of_char c - 48)) cs else None)"

definition Atoi :: "string \<Rightarrow> int option" where
  "Atoi s =
     (let neg = (s \<noteq> [] \<and> hd s = CHR ''-'');
          ds = (if s \<noteq> [] \<and> (hd s = CHR ''-'' \<or> hd s = CHR ''+'') then tl s else s) in
      if ds = [] then None
      else (case digits_value 0 ds of
              None \<Rightarrow> None
            | Some n \<Rightarrow>
                (let v = (if neg then - int n else int n) in
                 if - (2 ^ 63) \<le> v \<and> v < 2 ^ 63 then Some v else None)))"

text \<open>The constants \<^verbatim>\<open>ports.BaseDebugPort\<close> and \<^verbatim>\<open>ports.DebugPortName\<close>.\<close>

record ports_package =
  BaseDebugPort :: "16 word"
  DebugPortName :: PortName

text \<open>
  \<^verbatim>\<open>setupDebug\<close>. The second argument is the value of the environment variable
  \<^verbatim>\<open>DEBUG_START_TIMEOUT_FACTOR\<close>, empty when it is not set.
\<close>

definition setupDebug :: "ports_package \<Rightarrow> string \<Rightarrow> BaseContainer \<Rightarrow> BaseContainer \<times> event list" where
  "setupDebug pk strFactor c =
     (if Enabled (DebugPort c) then
        (let c1 = c\<lparr>Ports := Ports c @
                     [\<lparr>BindName = DebugPortName pk,
                       Container = uitoa (PortNumber (DebugPort c)) @ ''/tcp'',
                       Host = BaseDebugPort pk\<rparr>]\<rparr>;
             r = (if strFactor \<noteq> [] then
                    (case Atoi strFactor of
                       None \<Rightarrow> (c1, snd (LogStderr c1 (''wrong '' @ StartTimeoutFactorEnvar @ '' value'')))
                     | Some factor \<Rightarrow> (c1\<lparr>StartTimeout := StartTimeout c1 * of_int factor\<rparr>, []))
                  else (c1, []))
         in ((fst r)\<lparr>Cmd :=
               [''/bin/dlv'',
                ''--listen=:'' @ uitoa (unat (BaseDebugPort pk)),
                ''--headless=true'',
                ''--api-version=2'',
                ''--accept-multiclient'',
                ''exec'',
                Command (DebugPort c)]\<rparr>, snd r))
      else (c, []))"

text \<open>
  \<^verbatim>\<open>CreateContainer\<close>. The third argument is what \<^verbatim>\<open>client.ContainerCreate\<close>
  answers.
\<close>

definition CreateContainer ::
  "ports_package \<Rightarrow> string \<Rightarrow> err + string \<Rightarrow> BaseContainer \<Rightarrow> err option \<times> BaseContainer \<times> event list" where
  "CreateContainer pk strFactor created c =
     (let c1 = (if Ctx c = None then c\<lparr>Ctx := Some BackgroundContext\<rparr> else c);
          c2 = (if Ready c1 = None then c1\<lparr>Ready := Some default_ready\<rparr> else c1);
          c3 = c2\<lparr>portnames := Names (Ports c2)\<rparr>;
          d = setupDebug pk strFactor c3
      in case created of
           Inl e \<Rightarrow> (Some (Wrap e ''create container''), fst d, snd d @ [EngineCreate])
         | Inr cid \<Rightarrow> (None, (fst d)\<lparr>containerID := cid\<rparr>, snd d @ [EngineCreate]))"

subsection \<open>StartContainer\<close>

text \<open>\<^verbatim>\<open>net.JoinHostPort\<close>.\<close>

definition JoinHostPort :: "string \<Rightarrow> string \<Rightarrow> string" where
  "JoinHostPort host port =
     (if CHR '':'' \<in> set host then ''['' @ host @ '']:'' @ port else host @ '':'' @ port)"

text \<open>Reading a Go map of strings: the empty string for a missing key.\<close>

definition lookup :: "('k \<rightharpoonup> string) \<Rightarrow> 'k \<Rightarrow> string" where
  "lookup m k = (case m k of None \<Rightarrow> [] | Some v \<Rightarrow> v)"

text \<open>The loop over \<^verbatim>\<open>info.PortBinds\<close> that fills the host endpoints.\<close>

fun hostEndpoints :: "BaseContainer \<Rightarrow> (Port \<times> PortBinding list) list \<Rightarrow> AddrsMap \<Rightarrow> AddrsMap" where
  "hostEndpoints c [] m = m"
| "hostEndpoints c ((p, bind) # rest) m =
     (if length bind > 0 then
        (let b = bind ! 0 in
         hostEndpoints c rest (m(lookup (portnames c) (HostPort b) \<mapsto> JoinHostPort (hostIP c) (HostPort b))))
      else hostEndpoints c rest m)"

text \<open>The loop over \<^verbatim>\<open>c.Ports\<close> that fills the container endpoints.\<close>

fun containerEndpoints :: "string \<Rightarrow> PortBind list \<Rightarrow> AddrsMap \<Rightarrow> AddrsMap" where
  "containerEndpoints containerIP [] m = m"
| "containerEndpoints containerIP (p # ps) m =
     containerEndpoints containerIP ps (m(BindName p \<mapsto> JoinHostPort containerIP (Port_of (Container p))))"

text \<open>Lines 259 to 280: both endpoint maps and the container's address.\<close>

definition endpoints :: "ContainerInfo \<Rightarrow> BaseContainer \<Rightarrow> BaseContainer" where
  "endpoints info c =
     (let c1 = c\<lparr>hostAddress := hostEndpoints c (PortBinds info) (hostAddress c)\<rparr>;
          containerIP = (if IPAddress info = [] then
                           (case Networks info (networkName c1) of
                              Some endpoint \<Rightarrow> EndpointIPAddress endpoint
                            | None \<Rightarrow> IPAddress info)
                         else IPAddress info);
          c2 = c1\<lparr>ContainerIP := containerIP\<rparr>
      in c2\<lparr>containerAddress := containerEndpoints containerIP (Ports c2) (containerAddress c2)\<rparr>)"

text \<open>
  Which case of the first \<^verbatim>\<open>select\<close> is taken: the start deadline, the exit
  channel (with what the exit-wait task received), or the readiness signal. And which
  case of the second: the exit channel, the signal channel, or none ever.
\<close>

datatype race_event = Deadline | Exited wait_outcome | ReadyResolved

datatype run_event = RunExit wait_outcome | Signal | Never

text \<open>
  What the world answers during one call of \<^verbatim>\<open>StartContainer\<close>:
  \<^verbatim>\<open>client.ContainerStart\<close> (an error, or the info pointer, which may be nil),
  the two \<^verbatim>\<open>select\<close>s, and \<^verbatim>\<open>client.ContainerStop\<close>.
\<close>

record start_env =
  started :: "err + ContainerInfo option"
  race :: race_event
  run :: run_event
  stop_answer :: "err option"

text \<open>The ready-notification channel that the caller passes, when it is not nil.\<close>

datatype chan_state = ChanOpen | ChanClosed

definition debug_banner :: "BaseContainer \<Rightarrow> string" where
  "debug_banner c = newline @ ''!!! RUNNING IN DEBUG MODE!!! PORT: '' @ Shown (DebugPort c) @ newline @ newline"

text \<open>
  The part of \<^verbatim>\<open>StartContainer\<close> after the readiness signal: the log line, the
  closing of the ready channel, and the second \<^verbatim>\<open>select\<close> unless the container
  runs in the background. The deferred cancellations run when the call returns or panics.
\<close>

definition running :: "start_env \<Rightarrow> chan_state option \<Rightarrow> BaseContainer \<Rightarrow> err option outcome \<times> BaseContainer \<times> event list" where
  "running env ready_ch c =
     (let l = LogStdout c (GetName c @ '' component ready'');
          ev = snd l @ (if \<not> fst l then [OsStdout (GetName c @ '' component ready'' @ newline)] else [])
      in if ready_ch = Some ChanClosed then (Panic ''close of closed channel'', c, ev @ [CancelLogs])
         else
           (let ev1 = ev @ (if ready_ch \<noteq> None then [CloseReady] else []) in
            if \<not> Background c then
              (case run env of
                 RunExit w \<Rightarrow> (Returned (fst (wait c w)), c, ev1 @ snd (wait c w) @ [CancelLogs])
               | Signal \<Rightarrow>
                   (case Stop (stop_answer env) c of
                      (r, c1, ev2) \<Rightarrow> (Returned r, c1, ev1 @ ev2 @ [CancelLogs]))
               | Never \<Rightarrow> (Blocks, c, ev1))
            else (Returned None, c, ev1 @ [CancelLogs])))"

text \<open>
  \<^verbatim>\<open>StartContainer\<close>. In the deadline case the test \<^verbatim>\<open>err != nil\<close> reads the
  error of \<^verbatim>\<open>ContainerStart\<close>, which is nil there. The task that reports the
  errors of the log stream runs on its own after the call and leaves no event here;
  \<^verbatim>\<open>network.AddContainer\<close> is a call through the \<^verbatim>\<open>Network\<close> interface and
  is an event.
\<close>

definition StartContainer :: "start_env \<Rightarrow> chan_state option \<Rightarrow> BaseContainer \<Rightarrow> err option outcome \<times> BaseContainer \<times> event list" where
  "StartContainer env ready_ch c =
     (let ev0 = (if Enabled (DebugPort c) then snd (LogStdout c (debug_banner c)) else []) @
                [EngineStart (containerID c) (Name c)];
          err = (case started env of Inl e \<Rightarrow> Some e | Inr info \<Rightarrow> None)
      in case started env of
           Inl e \<Rightarrow> (Returned (Some (Wrap e ''start container'')), c, ev0)
         | Inr None \<Rightarrow> (Panic ''nil pointer dereference'', c, ev0)
         | Inr (Some info) \<Rightarrow>
             (let c1 = endpoints info c;
                  ev1 = ev0 @ [StreamLogsStarted (containerID c1),
                               NetworkAddContainer \<lparr>OrchID = ID info, OrchTypeID = TypeID c1,
                                  ContainerEnpoints = containerAddress c1, HostEnpoints = hostAddress c1\<rparr>,
                               WaitStarted (containerID c1)]
              in if Ready c1 = None then (Panic ''nil pointer dereference'', c1, ev1 @ [CancelLogs])
                 else
                   (case race env of
                      Deadline \<Rightarrow>
                        (case Stop (stop_answer env) c1 of
                           (stopErr, c2, ev2) \<Rightarrow>
                             (let ev3 = ev1 @ ev2 @
                                    (if err \<noteq> None then snd (LogError c2 stopErr [''stop container'']) else [])
                              in if length (containerID c2) < 12
                                 then (Panic ''slice bounds out of range'', c2, ev3 @ [CancelLogs])
                                 else (Returned (Some (ErrCtx [(''container-name'', GetName c2),
                                                              (''container-id'', take 12 (containerID c2))]
                                                        ErrContainerDidntStart)), c2, ev3 @ [CancelLogs])))
                    | Exited w \<Rightarrow>
                        (Returned (Some ErrContainerExitedBeforeReady), c1, ev1 @ snd (wait c1 w) @ [CancelLogs])
                    | ReadyResolved \<Rightarrow>
                        (case running env ready_ch c1 of
                           (r, c2, ev2) \<Rightarrow> (r, c2, ev1 @ ev2)))))"

text \<open>The requests to stop a container that the engine received.\<close>

definition engine_stops :: "event list \<Rightarrow> event list" where
  "engine_stops evs = filter (\<lambda>e. case e of EngineStop i g \<Rightarrow> True | _ \<Rightarrow> False) evs"

section \<open>Notions for the statements\<close>

text \<open>The error of a second \<^verbatim>\<open>Stop\<close>.\<close>

definition already_stopped :: "BaseContainer \<Rightarrow> err" where
  "already_stopped c =
     ErrCtx [(''container-id'', containerID c), (''container-name'', GetName c)] ErrContainerAlreadyStoped"

text \<open>A clean exit: a status with code 0 and no error.\<close>

definition clean_exit :: "wait_outcome \<Rightarrow> bool" where
  "clean_exit w = (case w of ErrCh e \<Rightarrow> False | WaitCh status \<Rightarrow> StatusCode status = 0 \<and> StatusError status = None)"


text \<open>Events that are log lines on the output stream or the request to start.\<close>

definition only_start_request :: "event list \<Rightarrow> bool" where
  "only_start_request evs = list_all (\<lambda>e. case e of Stdout s \<Rightarrow> True | EngineStart i n \<Rightarrow> True | _ \<Rightarrow> False) evs"

subsection \<open>Concrete controllers and engine answers\<close>

text \<open>
  Controllers, engine answers and constants of the ports package to run the
  operations on: a container named svc, created with the given id.
\<close>

definition created_container :: "string \<Rightarrow> BaseContainer" where
  "created_container cid =
     fst (snd (CreateContainer \<lparr>BaseDebugPort = 40000, DebugPortName = ''debug''\<rparr> [] (Inr cid)
                 ((NewBaseContainer ''testnet'' ''172.16.0.1'')\<lparr>Name := ''svc''\<rparr>)))"




definition failing_env :: start_env where
  "failing_env = \<lparr>started = Inl (EngineError ''no such container''), race = Deadline, run = Never, stop_answer = None\<rparr>"


definition test_ports :: ports_package where
  "test_ports = \<lparr>BaseDebugPort = 40000, DebugPortName = ''debug''\<rparr>"

section \<open>Properties of the allocator\<close>

subsection \<open>The CIDR string determines the network\<close>

lemma distinct_digits: "distinct digits"
  by (simp add: digits_def)

lemma length_digits: "length digits = 10"
  by (simp add: digits_def)

lemma digit_inj: "n < 10 \<Longrightarrow> m < 10 \<Longrightarrow> digits ! n = digits ! m \<Longrightarrow> n = m"
  using distinct_digits length_digits by (simp add: nth_eq_iff_index_eq)

lemma uitoa_nonempty: "uitoa n \<noteq> []"
  by (subst uitoa.simps) simp

lemma set_uitoa: "set (uitoa n) \<subseteq> set digits"
proof (induction n rule: uitoa.induct)
  case (1 n)
  show ?case
  proof (cases "n < 10")
    case True
    then have "digits ! n \<in> set digits" by (simp add: length_digits)
    with True show ?thesis by (subst uitoa.simps) simp
  next
    case False
    have "digits ! (n mod 10) \<in> set digits" by (simp add: length_digits)
    with False 1 show ?thesis by (subst uitoa.simps) simp
  qed
qed

lemma dot_not_digit: "CHR ''.'' \<notin> set (uitoa n)"
  using set_uitoa [of n] by (auto simp: digits_def)

lemma slash_not_digit: "CHR ''/'' \<notin> set (uitoa n)"
  using set_uitoa [of n] by (auto simp: digits_def)

lemma uitoa_inj: "uitoa n = uitoa m \<Longrightarrow> n = m"
proof (induction n arbitrary: m rule: uitoa.induct)
  case (1 n)
  show ?case
  proof (cases "n < 10")
    case n: True
    show ?thesis
    proof (cases "m < 10")
      case True
      with n 1(2) show ?thesis
        by (simp add: uitoa.simps [of n] uitoa.simps [of m] digit_inj)
    next
      case False
      with n 1(2) uitoa_nonempty [of "m div 10"] show ?thesis
        by (simp add: uitoa.simps [of n] uitoa.simps [of m])
    qed
  next
    case n: False
    show ?thesis
    proof (cases "m < 10")
      case True
      with n 1(2) uitoa_nonempty [of "n div 10"] show ?thesis
        by (simp add: uitoa.simps [of n] uitoa.simps [of m])
    next
      case False
      with n 1(2) have e: "uitoa (n div 10) = uitoa (m div 10)"
        and d: "digits ! (n mod 10) = digits ! (m mod 10)"
        by (simp_all add: uitoa.simps [of n] uitoa.simps [of m])
      from 1(1) [OF n e] have "n div 10 = m div 10" .
      moreover from d have "n mod 10 = m mod 10" by (simp add: digit_inj)
      ultimately show ?thesis by (metis div_mult_mod_eq)
    qed
  qed
qed

lemma split_at_sep:
  "xs @ c # r = ys @ c # r' \<Longrightarrow> c \<notin> set xs \<Longrightarrow> c \<notin> set ys \<Longrightarrow> xs = ys \<and> r = r'"
proof (induction xs arbitrary: ys)
  case Nil
  then show ?case by (cases ys) auto
next
  case (Cons x xs)
  then show ?case by (cases ys) auto
qed

lemma String_inj: "String n = String m \<Longrightarrow> n = m"
proof -
  assume e: "String n = String m"
  note s0 = split_at_sep [OF e [unfolded String_def] dot_not_digit dot_not_digit]
  note s1 = split_at_sep [OF conjunct2 [OF s0] dot_not_digit dot_not_digit]
  note s2 = split_at_sep [OF conjunct2 [OF s1] dot_not_digit dot_not_digit]
  note s3 = split_at_sep [OF conjunct2 [OF s2] slash_not_digit slash_not_digit]
  from s0 s1 s2 s3 have "b0 n = b0 m" "b1 n = b1 m" "b2 n = b2 m" "b3 n = b3 m" "ones n = ones m"
    by (auto dest!: uitoa_inj simp: word_unat_eq_iff)
  then show ?thesis by simp
qed

subsection \<open>Addresses\<close>

lemma byte_lt: "unat (b :: byte) < 256"
  using unsigned_less [of b] by simp

lemma div_qr: "r < d \<Longrightarrow> (q * d + r) div d = (q::nat)"
  by simp

lemma mod_qr: "r < d \<Longrightarrow> (q * d + r) mod d = (r::nat)"
  by simp

lemma address_div_256: "address n div 256 = (unat (b0 n) * 256 + unat (b1 n)) * 256 + unat (b2 n)"
  unfolding address_def by (rule div_qr [OF byte_lt])

lemma address_mod_256: "address n mod 256 = unat (b3 n)"
  unfolding address_def by (rule mod_qr [OF byte_lt])

lemma address_split: "address n = (unat (b0 n) * 256 + unat (b1 n)) * 65536 + (unat (b2 n) * 256 + unat (b3 n))"
  unfolding address_def by simp

lemma low_lt: "unat (a::byte) * 256 + unat (b::byte) < 65536"
  using byte_lt [of a] byte_lt [of b] by linarith

lemma address_div_65536: "address n div 65536 = unat (b0 n) * 256 + unat (b1 n)"
  unfolding address_split by (rule div_qr [OF low_lt])

lemma address_mod_65536: "address n mod 65536 = unat (b2 n) * 256 + unat (b3 n)"
  unfolding address_split by (rule mod_qr [OF low_lt])

lemma bytes_pair_eq:
  fixes a b c d :: byte
  assumes "unat a * 256 + unat b = unat c * 256 + unat d"
  shows "a = c \<and> b = d"
proof -
  have "(unat a * 256 + unat b) div 256 = unat a" "(unat a * 256 + unat b) mod 256 = unat b"
       "(unat c * 256 + unat d) div 256 = unat c" "(unat c * 256 + unat d) mod 256 = unat d"
    by (rule div_qr [OF byte_lt], rule mod_qr [OF byte_lt], rule div_qr [OF byte_lt], rule mod_qr [OF byte_lt])
  with assms have "unat a = unat c \<and> unat b = unat d" by metis
  then show ?thesis by (simp add: word_unat_eq_iff)
qed

lemma unat_of_nat_byte: "k < 256 \<Longrightarrow> unat (of_nat k :: byte) = k"
  by (simp add: unat_of_nat)

lemma overlaps_sym: "overlaps n m = overlaps m n"
  by (auto simp: overlaps_def Let_def min.commute)

lemma div_pow_le:
  fixes x y :: nat
  assumes "x div 2 ^ j = y div 2 ^ j" "j \<le> k"
  shows "x div 2 ^ k = y div 2 ^ k"
proof -
  from assms(2) obtain d where k: "k = j + d" by (auto simp: le_iff_add)
  have "x div 2 ^ k = x div 2 ^ j div 2 ^ d" "y div 2 ^ k = y div 2 ^ j div 2 ^ d"
    by (simp_all add: k power_add div_mult2_eq)
  with assms(1) show ?thesis by simp
qed

lemma overlaps_iff_common_address:
  "overlaps n m \<longleftrightarrow> (\<exists>a. contains n a \<and> contains m a)"
proof
  assume o: "overlaps n m"
  show "\<exists>a. contains n a \<and> contains m a"
  proof (cases "ones n \<le> ones m")
    case True
    with o have "contains n (address m)" by (simp add: overlaps_def contains_def min_def Let_def)
    moreover have "contains m (address m)" by (simp add: contains_def)
    ultimately show ?thesis by blast
  next
    case False
    with o have "contains m (address n)" by (simp add: overlaps_def contains_def min_def Let_def)
    moreover have "contains n (address n)" by (simp add: contains_def)
    ultimately show ?thesis by blast
  qed
next
  assume "\<exists>a. contains n a \<and> contains m a"
  then obtain a where n: "a div 2 ^ (32 - ones n) = address n div 2 ^ (32 - ones n)"
    and m: "a div 2 ^ (32 - ones m) = address m div 2 ^ (32 - ones m)"
    by (auto simp: contains_def)
  let ?k = "32 - min (ones n) (ones m)"
  have "a div 2 ^ ?k = address n div 2 ^ ?k" by (rule div_pow_le [OF n]) simp
  moreover have "a div 2 ^ ?k = address m div 2 ^ ?k" by (rule div_pow_le [OF m]) simp
  ultimately show "overlaps n m" by (simp add: overlaps_def Let_def)
qed

lemma qr_eq:
  fixes q q' r r' d :: nat
  assumes "r < d" "r' < d" "q * d + r = q' * d + r'"
  shows "q = q' \<and> r = r'"
  using div_qr [OF assms(1), of q] div_qr [OF assms(2), of q'] mod_qr [OF assms(1), of q]
    mod_qr [OF assms(2), of q'] assms(3) by metis

text \<open>A /24 candidate and a canonical /24 or /16 overlap only when the strings coincide.\<close>

lemma overlap_24:
  assumes "overlaps (IPv4 a g s 0 24) n" "canonical n" "ones n = 24"
  shows "n = IPv4 a g s 0 24"
proof -
  let ?t = "IPv4 a g s 0 24"
  from assms(1,3) have "address ?t div 256 = address n div 256"
    by (simp add: overlaps_def IPv4_def)
  then have e: "(unat a * 256 + unat g) * 256 + unat s = (unat (b0 n) * 256 + unat (b1 n)) * 256 + unat (b2 n)"
    by (simp only: address_div_256) (simp add: IPv4_def)
  from assms(2,3) have "address n mod 256 = 0" by (simp add: canonical_def)
  then have z: "b3 n = 0" by (simp only: address_mod_256) (simp add: unat_eq_0)
  from e have "(unat a * 256 + unat g) = (unat (b0 n) * 256 + unat (b1 n)) \<and> unat s = unat (b2 n)"
    by (rule qr_eq [OF byte_lt byte_lt])
  then have "a = b0 n" "g = b1 n" "s = b2 n"
    using bytes_pair_eq [of a g "b0 n" "b1 n"] by (simp_all add: word_unat_eq_iff)
  with z assms(3) show ?thesis by (simp add: IPv4_def)
qed

lemma overlap_16:
  assumes "overlaps (IPv4 a g s 0 24) n" "canonical n" "ones n = 16"
  shows "n = IPv4 a g 0 0 16"
proof -
  let ?t = "IPv4 a g s 0 24"
  from assms(1,3) have "address ?t div 65536 = address n div 65536"
    by (simp add: overlaps_def IPv4_def)
  then have e: "unat a * 256 + unat g = unat (b0 n) * 256 + unat (b1 n)"
    by (simp only: address_div_65536) (simp add: IPv4_def)
  from assms(2,3) have "address n mod 65536 = 0" by (simp add: canonical_def)
  then have "unat (b2 n) * 256 + unat (b3 n) = 0" by (simp only: address_mod_65536)
  then have z: "b2 n = 0" "b3 n = 0" by (simp_all add: unat_eq_0)
  from e have "a = b0 n" "g = b1 n" using bytes_pair_eq by blast+
  with z assms(3) show ?thesis by (simp add: IPv4_def)
qed

lemma canonical_candidate: "canonical (IPv4 a g s 0 24)"
  unfolding canonical_def by (simp add: IPv4_def address_mod_256 [simplified])

subsection \<open>The scan\<close>

lemma scanSubnets_Some:
  "scanSubnets u a g si = Some s \<Longrightarrow>
     \<exists>k. si \<le> k \<and> k < 255 \<and> s = IPv4 a g (of_nat k) 0 24 \<and> u (String s) = None \<and>
         (\<forall>j. si \<le> j \<and> j < k \<longrightarrow> u (String (IPv4 a g (of_nat j) 0 24)) \<noteq> None)"
proof (induction u a g si rule: scanSubnets.induct)
  case (1 u a g si)
  show ?case
  proof (cases "si < 255 \<and> u (String (IPv4 a g (of_nat si) 0 24)) \<noteq> None")
    case True
    with 1(2) have "scanSubnets u a g (si + 1) = Some s"
      by (subst (asm) scanSubnets.simps) (simp add: Let_def)
    with 1(1) True obtain k where k: "si + 1 \<le> k" "k < 255" "s = IPv4 a g (of_nat k) 0 24"
      "u (String s) = None" "\<forall>j. si + 1 \<le> j \<and> j < k \<longrightarrow> u (String (IPv4 a g (of_nat j) 0 24)) \<noteq> None"
      by (auto simp: Let_def)
    have "\<forall>j. si \<le> j \<and> j < k \<longrightarrow> u (String (IPv4 a g (of_nat j) 0 24)) \<noteq> None"
    proof (intro allI impI)
      fix j assume j: "si \<le> j \<and> j < k"
      show "u (String (IPv4 a g (of_nat j) 0 24)) \<noteq> None"
      proof (cases "j = si")
        case True with \<open>si < 255 \<and> _\<close> show ?thesis by simp
      next
        case False with j k(5) show ?thesis by simp
      qed
    qed
    with k show ?thesis by (intro exI [of _ k]) simp
  next
    case False
    with 1(2) have "si < 255" "s = IPv4 a g (of_nat si) 0 24" "u (String s) = None"
      by (subst (asm) scanSubnets.simps, simp add: Let_def split: if_splits)+
    then show ?thesis by (intro exI [of _ si]) auto
  qed
qed


lemma entered_iff:
  "(case u (String (IPv4 a (of_nat z) 0 0 16)) of None \<Rightarrow> True | Some sz \<Rightarrow> sz \<noteq> 16) = entered u a z"
  by (simp add: entered_def split: option.splits)

lemma b1_IPv4: "b1 (IPv4 a g c d m) = g"
  by (simp add: IPv4_def)

lemma scanZones_unfold:
  "scanZones na ni =
     (if ni < unat (b1 (addr na)) + ones (addr na) then
        if entered (used na) (b0 (addr na)) ni then
          (case scanSubnets (used na) (b0 (addr na)) (of_nat ni) 0 of
             Some subnet \<Rightarrow> Some subnet | None \<Rightarrow> scanZones na (ni + 1))
        else scanZones na (ni + 1)
      else None)"
  by (subst scanZones.simps) (simp add: Let_def entered_iff b1_IPv4)

lemma scanZones_Some:
  "scanZones na ni = Some s \<Longrightarrow>
     \<exists>z k. ni \<le> z \<and> z < unat (b1 (addr na)) + ones (addr na) \<and> k < 255 \<and>
           s = IPv4 (b0 (addr na)) (of_nat z) (of_nat k) 0 24 \<and>
           used na (String s) = None \<and> entered (used na) (b0 (addr na)) z"
proof (induction na ni rule: scanZones.induct)
  case (1 na ni)
  let ?a = "b0 (addr na)"
  from 1(3) have lt: "ni < unat (b1 (addr na)) + ones (addr na)"
    by (subst (asm) scanZones_unfold) (simp split: if_splits)
  show ?case
  proof (cases "entered (used na) ?a ni \<and> scanSubnets (used na) ?a (of_nat ni) 0 \<noteq> None")
    case True
    with 1(3) lt have "scanSubnets (used na) ?a (of_nat ni) 0 = Some s"
      by (subst (asm) scanZones_unfold) auto
    from scanSubnets_Some [OF this] obtain k where "k < 255" "s = IPv4 ?a (of_nat ni) (of_nat k) 0 24"
      "used na (String s) = None" by blast
    with True lt show ?thesis by (intro exI [of _ ni] exI [of _ k]) simp
  next
    case False
    with 1(3) lt have rest: "scanZones na (ni + 1) = Some s"
      by (subst (asm) scanZones_unfold) (auto split: if_splits)
    have "\<exists>z k. ni + 1 \<le> z \<and> z < unat (b1 (addr na)) + ones (addr na) \<and> k < 255 \<and>
           s = IPv4 ?a (of_nat z) (of_nat k) 0 24 \<and>
           used na (String s) = None \<and> entered (used na) ?a z"
    proof (cases "entered (used na) ?a ni")
      case True
      with False have n: "scanSubnets (used na) ?a (b1 (IPv4 ?a (of_nat ni) 0 0 16)) 0 = None"
        by (simp add: b1_IPv4)
      from True have c: "case used na (String (IPv4 ?a (of_nat ni) 0 0 16)) of None \<Rightarrow> True | Some sz \<Rightarrow> sz \<noteq> 16"
        by (simp add: entered_iff)
      from 1(1) [OF lt refl c n rest] show ?thesis .
    next
      case False
      then have c: "\<not> (case used na (String (IPv4 ?a (of_nat ni) 0 0 16)) of None \<Rightarrow> True | Some sz \<Rightarrow> sz \<noteq> 16)"
        by (simp add: entered_iff)
      from 1(2) [OF lt refl c rest] show ?thesis .
    qed
    then obtain z k where "ni + 1 \<le> z" "z < unat (b1 (addr na)) + ones (addr na)" "k < 255"
           "s = IPv4 ?a (of_nat z) (of_nat k) 0 24" "used na (String s) = None" "entered (used na) ?a z"
      by blast
    then show ?thesis by (intro exI [of _ z] exI [of _ k]) simp
  qed
qed


lemma blocked_upd: "blocked u n \<Longrightarrow> blocked (u(String m \<mapsto> ones m)) n"
  by (auto simp: blocked_def dest: String_inj)

lemma fold_networks_blocked: "blocked u n \<Longrightarrow> blocked (fold_networks u ns) n"
  by (induction ns arbitrary: u) (simp_all add: blocked_upd)

lemma fold_networks_dom: "u k \<noteq> None \<Longrightarrow> fold_networks u ns k \<noteq> None"
  by (induction ns arbitrary: u) simp_all

lemma reserve_blocked: "reserve u rs = Inr u' \<Longrightarrow> blocked u n \<Longrightarrow> blocked u' n"
  by (induction u rs rule: reserve.induct) (simp_all add: blocked_upd)

lemma reserve_member: "reserve u rs = Inr u' \<Longrightarrow> (p, Some r) \<in> set rs \<Longrightarrow> blocked u' r"
proof (induction u rs rule: reserve.induct)
  case (3 u s r' rest)
  show ?case
  proof (cases "(p, Some r) = (s, Some r')")
    case True
    have "blocked (u(String r \<mapsto> ones r)) r" by (simp add: blocked_def)
    moreover from 3(2) True have "reserve (u(String r \<mapsto> ones r)) rest = Inr u'" by simp
    ultimately show ?thesis by (rule reserve_blocked [rotated])
  next
    case False
    with 3(3) have "(p, Some r) \<in> set rest" by auto
    moreover from 3(2) have "reserve (u(String r' \<mapsto> ones r')) rest = Inr u'" by simp
    ultimately show ?thesis by (rule 3(1) [rotated])
  qed
qed simp_all

lemma NewNetworkAllocator_addr: "NewNetworkAllocator rs = Inr na \<Longrightarrow> addr na = IPv4 172 16 0 0 12"
  by (auto simp: NewNetworkAllocator_def split: sum.splits)

lemma NewNetworkAllocator_blocked:
  "NewNetworkAllocator rs = Inr na \<Longrightarrow> (p, Some r) \<in> set rs \<Longrightarrow> blocked (used na) r"
  by (auto simp: NewNetworkAllocator_def split: sum.splits dest: reserve_member)

text \<open>What one call does.\<close>

lemma GetFreeSubnet_error:
  "GetFreeSubnet (Inl e) na = (Inl (Wrap (Wrap e ''get client networks list'') ''get used networks''), na)"
  by (simp add: GetFreeSubnet_def getUsedNetworks_def)

lemma GetFreeSubnet_list:
  "GetFreeSubnet (Inr ns) na =
     (let na1 = na\<lparr>used := fold_networks (used na) ns\<rparr> in
      case scanZones na1 (unat (b1 (addr na))) of
        Some subnet \<Rightarrow> (Inr (Some subnet), na1\<lparr>used := (used na1)(String subnet \<mapsto> 24)\<rparr>)
      | None \<Rightarrow> (Inr None, na1))"
  by (simp add: GetFreeSubnet_def getUsedNetworks_def Let_def)

lemma GetFreeSubnet_addr: "GetFreeSubnet nl na = (r, na') \<Longrightarrow> addr na' = addr na"
  by (cases nl) (auto simp: GetFreeSubnet_error GetFreeSubnet_list Let_def split: option.splits)

lemma GetFreeSubnet_Some:
  assumes "GetFreeSubnet nl na = (Inr (Some s), na')"
  shows "\<exists>ns z k. nl = Inr ns \<and> unat (b1 (addr na)) \<le> z \<and> z < unat (b1 (addr na)) + ones (addr na) \<and> k < 255 \<and>
           s = IPv4 (b0 (addr na)) (of_nat z) (of_nat k) 0 24 \<and>
           fold_networks (used na) ns (String s) = None \<and>
           entered (fold_networks (used na) ns) (b0 (addr na)) z \<and>
           used na' = (fold_networks (used na) ns)(String s \<mapsto> 24)"
proof (cases nl)
  case (Inl e)
  with assms show ?thesis by (simp add: GetFreeSubnet_error)
next
  case (Inr ns)
  let ?na1 = "na\<lparr>used := fold_networks (used na) ns\<rparr>"
  from assms Inr have z: "scanZones ?na1 (unat (b1 (addr na))) = Some s"
    and u: "used na' = (fold_networks (used na) ns)(String s \<mapsto> 24)"
    by (auto simp: GetFreeSubnet_list Let_def split: option.splits)
  from scanZones_Some [OF z] u Inr show ?thesis by simp
qed

lemma GetFreeSubnet_blocked:
  assumes "GetFreeSubnet nl na = (r, na')" "blocked (used na) n"
  shows "blocked (used na') n"
proof (cases nl)
  case (Inl e)
  with assms show ?thesis by (simp add: GetFreeSubnet_error)
next
  case (Inr ns)
  have f: "blocked (fold_networks (used na) ns) n" by (rule fold_networks_blocked [OF assms(2)])
  show ?thesis
  proof (cases r)
    case (Inl e)
    with assms Inr show ?thesis by (auto simp: GetFreeSubnet_list Let_def split: option.splits)
  next
    case r: (Inr so)
    show ?thesis
    proof (cases so)
      case None
      with assms(1) Inr r f show ?thesis by (auto simp: GetFreeSubnet_list Let_def split: option.splits)
    next
      case (Some s)
      with assms(1) r obtain z k where s: "s = IPv4 (b0 (addr na)) (of_nat z) (of_nat k) 0 24"
        and u: "used na' = (fold_networks (used na) ns)(String s \<mapsto> 24)"
        using GetFreeSubnet_Some [of nl na s na'] Inr by auto
      from s have "ones s = 24" by (simp add: IPv4_def)
      with blocked_upd [OF f, of s] u show ?thesis by simp
    qed
  qed
qed

lemma GetFreeSubnet_dom:
  assumes "GetFreeSubnet nl na = (r, na')" "used na k \<noteq> None"
  shows "used na' k \<noteq> None"
proof (cases nl)
  case (Inl e)
  with assms show ?thesis by (simp add: GetFreeSubnet_error)
next
  case (Inr ns)
  from assms(2) have "fold_networks (used na) ns k \<noteq> None" by (rule fold_networks_dom)
  with assms(1) Inr show ?thesis
    by (auto simp: GetFreeSubnet_list Let_def split: option.splits)
qed

lemma GetFreeSubnet_fresh:
  assumes "GetFreeSubnet nl na = (Inr (Some s), na')"
  shows "used na (String s) = None" "used na' (String s) = Some 24"
proof -
  from GetFreeSubnet_Some [OF assms] obtain ns where
    f: "fold_networks (used na) ns (String s) = None" and u: "used na' = (fold_networks (used na) ns)(String s \<mapsto> 24)"
    by blast
  from f fold_networks_dom [of "used na" "String s" ns] show "used na (String s) = None" by blast
  from u show "used na' (String s) = Some 24" by simp
qed

text \<open>A subnet returned by a later call is not a key of the table now.\<close>

lemma allocs_fresh: "Inr (Some t) \<in> set (allocs na nls) \<Longrightarrow> used na (String t) = None"
proof (induction nls arbitrary: na)
  case Nil
  then show ?case by simp
next
  case (Cons nl nls)
  obtain r na' where g: "GetFreeSubnet nl na = (r, na')" by (cases "GetFreeSubnet nl na")
  with Cons.prems have "r = Inr (Some t) \<or> Inr (Some t) \<in> set (allocs na' nls)" by auto
  then show ?case
  proof
    assume "r = Inr (Some t)"
    with g show ?thesis by (simp add: GetFreeSubnet_fresh(1))
  next
    assume "Inr (Some t) \<in> set (allocs na' nls)"
    then have "used na' (String t) = None" by (rule Cons.IH)
    with GetFreeSubnet_dom [OF g, of "String t"] show ?thesis by blast
  qed
qed

lemma allocs_distinct:
  "i < j \<Longrightarrow> j < length (allocs na nls) \<Longrightarrow> allocs na nls ! i = Inr (Some s) \<Longrightarrow>
   allocs na nls ! j = Inr (Some t) \<Longrightarrow> s \<noteq> t"
proof (induction nls arbitrary: na i j)
  case Nil
  then show ?case by simp
next
  case (Cons nl nls)
  obtain r na' where g: "GetFreeSubnet nl na = (r, na')" by (cases "GetFreeSubnet nl na")
  from Cons.prems(1) obtain j' where j: "j = Suc j'" by (cases j) auto
  with Cons.prems g have j': "j' < length (allocs na' nls)" "allocs na' nls ! j' = Inr (Some t)" by simp_all
  show ?case
  proof (cases i)
    case 0
    with Cons.prems(3) g have "r = Inr (Some s)" by simp
    with g have "used na' (String s) = Some 24" by (simp add: GetFreeSubnet_fresh(2))
    moreover from j' have "Inr (Some t) \<in> set (allocs na' nls)" by (metis nth_mem)
    then have "used na' (String t) = None" by (rule allocs_fresh)
    ultimately show ?thesis by auto
  next
    case (Suc i')
    with Cons.prems g j have "i' < j'" "allocs na' nls ! i' = Inr (Some s)" by simp_all
    with j' show ?thesis by (intro Cons.IH [of i' j' na'])
  qed
qed

text \<open>A returned subnet overlaps no canonical /16 or /24 that the table holds with its own length.\<close>

lemma allocs_avoid_blocked:
  "Inr (Some t) \<in> set (allocs na nls) \<Longrightarrow> blocked (used na) n \<Longrightarrow> canonical n \<Longrightarrow>
   ones n = 16 \<or> ones n = 24 \<Longrightarrow> \<not> overlaps t n"
proof (induction nls arbitrary: na)
  case Nil
  then show ?case by simp
next
  case (Cons nl nls)
  obtain r na' where g: "GetFreeSubnet nl na = (r, na')" by (cases "GetFreeSubnet nl na")
  with Cons.prems(1) have "r = Inr (Some t) \<or> Inr (Some t) \<in> set (allocs na' nls)" by auto
  then show ?case
  proof
    assume "r = Inr (Some t)"
    with g have g': "GetFreeSubnet nl na = (Inr (Some t), na')" by simp
    from GetFreeSubnet_Some [OF g'] obtain ns z k where
      t: "t = IPv4 (b0 (addr na)) (of_nat z) (of_nat k) 0 24"
      and f: "fold_networks (used na) ns (String t) = None"
      and e: "entered (fold_networks (used na) ns) (b0 (addr na)) z"
      by blast
    have b: "blocked (fold_networks (used na) ns) n" by (rule fold_networks_blocked [OF Cons.prems(2)])
    show ?thesis
    proof
      assume o: "overlaps t n"
      from Cons.prems(4) show False
      proof
        assume 16: "ones n = 16"
        from overlap_16 [OF o [unfolded t] Cons.prems(3) 16] b 16 e show False
          by (simp add: blocked_def entered_def)
      next
        assume 24: "ones n = 24"
        from overlap_24 [OF o [unfolded t] Cons.prems(3) 24] b 24 f t show False
          by (simp add: blocked_def)
      qed
    qed
  next
    assume "Inr (Some t) \<in> set (allocs na' nls)"
    moreover have "blocked (used na') n" by (rule GetFreeSubnet_blocked [OF g Cons.prems(2)])
    ultimately show ?thesis using Cons.prems(3,4) by (rule Cons.IH)
  qed
qed

lemma returned_shape:
  "GetFreeSubnet nl na = (Inr (Some s), na') \<Longrightarrow> canonical s \<and> ones s = 24"
  using GetFreeSubnet_Some [of nl na s na'] by (auto simp: canonical_candidate) (simp add: IPv4_def)

lemma allocs_disjoint:
  "i < j \<Longrightarrow> j < length (allocs na nls) \<Longrightarrow> allocs na nls ! i = Inr (Some s) \<Longrightarrow>
   allocs na nls ! j = Inr (Some t) \<Longrightarrow> \<not> overlaps s t"
proof (induction nls arbitrary: na i j)
  case Nil
  then show ?case by simp
next
  case (Cons nl nls)
  obtain r na' where g: "GetFreeSubnet nl na = (r, na')" by (cases "GetFreeSubnet nl na")
  from Cons.prems(1) obtain j' where j: "j = Suc j'" by (cases j) auto
  with Cons.prems g have j': "j' < length (allocs na' nls)" "allocs na' nls ! j' = Inr (Some t)" by simp_all
  show ?case
  proof (cases i)
    case 0
    with Cons.prems(3) g have g': "GetFreeSubnet nl na = (Inr (Some s), na')" by simp
    then have "used na' (String s) = Some 24" by (rule GetFreeSubnet_fresh(2))
    moreover from returned_shape [OF g'] have c: "canonical s" "ones s = 24" by simp_all
    ultimately have "blocked (used na') s" by (simp add: blocked_def)
    moreover from j' have "Inr (Some t) \<in> set (allocs na' nls)" by (metis nth_mem)
    ultimately have "\<not> overlaps t s" using c by (intro allocs_avoid_blocked) simp_all
    then show ?thesis by (simp add: overlaps_sym)
  next
    case (Suc i')
    with Cons.prems g j have "i' < j'" "allocs na' nls ! i' = Inr (Some s)" by simp_all
    with j' show ?thesis by (intro Cons.IH [of i' j' na'])
  qed
qed



lemmas eval_simps = session_def NewNetworkAllocator_def GetFreeSubnet_def getUsedNetworks_def
  scanZones.simps scanSubnets.simps String_def uitoa.simps digits_def IPv4_def Let_def

section \<open>The allocator's claims\<close>

text \<open>
  C6. On a fully free supernet 172.16.0.0/12 (empty used table, the engine lists no
  network) the first call of \<^verbatim>\<open>GetFreeSubnet\<close> returns 172.16.0.0/24; a
  subnet that a call returns is a key of the used table, with the value 24, when the
  call returns; and two calls on one allocator never return the same subnet, whatever
  the engine lists in between.
\<close>

theorem first_subnet_and_no_repeat:
  "fst (GetFreeSubnet (Inr []) \<lparr>addr = IPv4 172 16 0 0 12, used = Map.empty\<rparr>) = Inr (Some (IPv4 172 16 0 0 24)) \<and>
   (GetFreeSubnet nl na = (Inr (Some s), na') \<longrightarrow> used na' (String s) = Some 24) \<and>
   (i < j \<and> j < length (allocs nb nls) \<and> allocs nb nls ! i = Inr (Some t) \<and>
      allocs nb nls ! j = Inr (Some t') \<longrightarrow> t \<noteq> t')"
proof (intro conjI impI)
  show "fst (GetFreeSubnet (Inr []) \<lparr>addr = IPv4 172 16 0 0 12, used = Map.empty\<rparr>) = Inr (Some (IPv4 172 16 0 0 24))"
    by (simp add: eval_simps)
next
  assume "GetFreeSubnet nl na = (Inr (Some s), na')"
  then show "used na' (String s) = Some 24" by (rule GetFreeSubnet_fresh(2))
next
  assume "i < j \<and> j < length (allocs nb nls) \<and> allocs nb nls ! i = Inr (Some t) \<and> allocs nb nls ! j = Inr (Some t')"
  then show "t \<noteq> t'" using allocs_distinct [of i j nb nls t t'] by blast
qed

theorem first_subnet_and_no_repeat_witness:
  "GetFreeSubnet (Inr []) \<lparr>addr = IPv4 172 16 0 0 12, used = Map.empty\<rparr> =
     (Inr (Some (IPv4 172 16 0 0 24)), snd (GetFreeSubnet (Inr []) \<lparr>addr = IPv4 172 16 0 0 12, used = Map.empty\<rparr>)) \<and>
   used (snd (GetFreeSubnet (Inr []) \<lparr>addr = IPv4 172 16 0 0 12, used = Map.empty\<rparr>)) (String (IPv4 172 16 0 0 24)) = Some 24 \<and>
   allocs \<lparr>addr = IPv4 172 16 0 0 12, used = Map.empty\<rparr> [Inr [], Inr []] =
     [Inr (Some (IPv4 172 16 0 0 24)), Inr (Some (IPv4 172 16 1 0 24))] \<and>
   IPv4 172 16 0 0 24 \<noteq> IPv4 172 16 1 0 24"
proof -
  let ?F = "\<lparr>addr = IPv4 172 16 0 0 12, used = Map.empty\<rparr>"
  let ?A = "IPv4 172 16 0 0 24" and ?B = "IPv4 172 16 1 0 24"
  have g: "GetFreeSubnet (Inr []) ?F = (Inr (Some ?A), snd (GetFreeSubnet (Inr []) ?F))"
    by (simp add: eval_simps)
  have a: "allocs ?F [Inr [], Inr []] = [Inr (Some ?A), Inr (Some ?B)]"
    by (simp add: eval_simps)
  then have h: "(0::nat) < 1 \<and> 1 < length (allocs ?F [Inr [], Inr []]) \<and>
      allocs ?F [Inr [], Inr []] ! 0 = Inr (Some ?A) \<and> allocs ?F [Inr [], Inr []] ! 1 = Inr (Some ?B)"
    by simp
  note t = first_subnet_and_no_repeat [of "Inr []" ?F ?A "snd (GetFreeSubnet (Inr []) ?F)" 0 1 ?F "[Inr [], Inr []]" ?A ?B]
  from t g have "used (snd (GetFreeSubnet (Inr []) ?F)) (String ?A) = Some 24" by blast
  moreover from t h have "?A \<noteq> ?B" by blast
  ultimately show ?thesis using g a by blast
qed

text \<open>
  C1, as stated, fails: the table is searched by string, so a reserved range is honoured
  only when its string is the string of a /24 candidate or of a /16 zone. With
  172.16.0.0/20 reserved, the first call returns 172.16.0.0/24, which lies inside it.
\<close>

theorem reserved_slash20_is_handed_out:
  "session [(''172.16.0.0/20'', Some (IPv4 172 16 0 0 20))] [Inr []] = Inr [Inr (Some (IPv4 172 16 0 0 24))] \<and>
   String (IPv4 172 16 0 0 20) = ''172.16.0.0/20'' \<and> canonical (IPv4 172 16 0 0 20) \<and>
   overlaps (IPv4 172 16 0 0 24) (IPv4 172 16 0 0 20)"
  by (simp add: eval_simps canonical_def overlaps_def address_def)

text \<open>
  C1, amended. For an allocator built from a reserved list and any sequence of calls,
  the subnets returned are pairwise non-overlapping, and no returned subnet overlaps a
  reserved range whose prefix length is 16 or 24 (a range as \<^verbatim>\<open>net.ParseCIDR\<close>
  returns it, host bits zero).
\<close>

theorem returned_subnets_disjoint:
  assumes "session reserved nls = Inr rs"
  shows "(i < j \<and> j < length rs \<and> rs ! i = Inr (Some s) \<and> rs ! j = Inr (Some t) \<longrightarrow> \<not> overlaps s t) \<and>
         ((p, Some r) \<in> set reserved \<and> canonical r \<and> (ones r = 16 \<or> ones r = 24) \<and>
            Inr (Some s') \<in> set rs \<longrightarrow> \<not> overlaps s' r)"
proof -
  from assms obtain na where na: "NewNetworkAllocator reserved = Inr na" and rs: "rs = allocs na nls"
    by (auto simp: session_def split: sum.splits)
  show ?thesis
  proof (intro conjI impI)
    assume "i < j \<and> j < length rs \<and> rs ! i = Inr (Some s) \<and> rs ! j = Inr (Some t)"
    then show "\<not> overlaps s t" using allocs_disjoint [of i j na nls s t] rs by blast
  next
    assume a: "(p, Some r) \<in> set reserved \<and> canonical r \<and> (ones r = 16 \<or> ones r = 24) \<and> Inr (Some s') \<in> set rs"
    then have "blocked (used na) r" using NewNetworkAllocator_blocked [OF na] by blast
    with a rs show "\<not> overlaps s' r" using allocs_avoid_blocked [of s' na nls r] by blast
  qed
qed

theorem returned_subnets_disjoint_witness:
  "session [(''172.16.0.0/16'', Some (IPv4 172 16 0 0 16)), (''172.17.0.0/24'', Some (IPv4 172 17 0 0 24))] [Inr [], Inr []] =
     Inr [Inr (Some (IPv4 172 17 1 0 24)), Inr (Some (IPv4 172 17 2 0 24))] \<and>
   canonical (IPv4 172 16 0 0 16) \<and> canonical (IPv4 172 17 0 0 24) \<and>
   \<not> overlaps (IPv4 172 17 1 0 24) (IPv4 172 17 2 0 24) \<and>
   \<not> overlaps (IPv4 172 17 1 0 24) (IPv4 172 16 0 0 16) \<and>
   \<not> overlaps (IPv4 172 17 2 0 24) (IPv4 172 17 0 0 24)"
proof -
  let ?R = "[(''172.16.0.0/16'', Some (IPv4 172 16 0 0 16)), (''172.17.0.0/24'', Some (IPv4 172 17 0 0 24))]"
  let ?rs = "[Inr (Some (IPv4 172 17 1 0 24)), Inr (Some (IPv4 172 17 2 0 24))] :: (err + IPNet option) list"
  have s: "session ?R [Inr [], Inr []] = Inr ?rs"
    by (simp add: eval_simps)
  have c: "canonical (IPv4 172 16 0 0 16)" "canonical (IPv4 172 17 0 0 24)"
    by (simp_all add: canonical_def address_def IPv4_def)
  have o: "ones (IPv4 172 16 0 0 16) = 16" "ones (IPv4 172 17 0 0 24) = 24"
    by (simp_all add: IPv4_def)
  have i: "(0::nat) < 1 \<and> 1 < length ?rs \<and> ?rs ! 0 = Inr (Some (IPv4 172 17 1 0 24)) \<and> ?rs ! 1 = Inr (Some (IPv4 172 17 2 0 24))"
    by simp
  have m1: "(''172.16.0.0/16'', Some (IPv4 172 16 0 0 16)) \<in> set ?R" "Inr (Some (IPv4 172 17 1 0 24)) \<in> set ?rs"
    by simp_all
  have m2: "(''172.17.0.0/24'', Some (IPv4 172 17 0 0 24)) \<in> set ?R" "Inr (Some (IPv4 172 17 2 0 24)) \<in> set ?rs"
    by simp_all
  from returned_subnets_disjoint [OF s, of 0 1 "IPv4 172 17 1 0 24" "IPv4 172 17 2 0 24"] i
  have "\<not> overlaps (IPv4 172 17 1 0 24) (IPv4 172 17 2 0 24)" by blast
  moreover from returned_subnets_disjoint [OF s, of _ _ _ _ "''172.16.0.0/16''" "IPv4 172 16 0 0 16" "IPv4 172 17 1 0 24"] m1 c o
  have "\<not> overlaps (IPv4 172 17 1 0 24) (IPv4 172 16 0 0 16)" by blast
  moreover from returned_subnets_disjoint [OF s, of _ _ _ _ "''172.17.0.0/24''" "IPv4 172 17 0 0 24" "IPv4 172 17 2 0 24"] m2 c o
  have "\<not> overlaps (IPv4 172 17 2 0 24) (IPv4 172 17 0 0 24)" by blast
  ultimately show ?thesis using s c by blast
qed


text \<open>
  The outer loop runs over as many zones as the supernet's mask has one bits: twelve,
  172.16 to 172.27. With these twelve reserved the call returns no subnet although
  zone 172.28 is neither reserved nor used.
\<close>

lemma twelve_zones_scanned:
  "session (take 12 all_zones_reserved) [Inr []] = Inr [Inr None] \<and>
   used (projr (NewNetworkAllocator (take 12 all_zones_reserved))) (String (IPv4 172 28 0 0 16)) = None \<and>
   used (projr (NewNetworkAllocator (take 12 all_zones_reserved))) (String (IPv4 172 28 0 0 24)) = None \<and>
   contains (IPv4 172 16 0 0 12) (address (IPv4 172 28 0 0 24))"
  by (simp add: eval_simps all_zones_reserved_def contains_def address_def)



section \<open>Properties of the controller\<close>

subsection \<open>Stop\<close>

lemma Stop_stopped: "stopped c \<Longrightarrow> Stop answer c = (Some (already_stopped c), c, [])"
  by (simp add: Stop_def already_stopped_def)

lemma Stop_first: "\<not> stopped c \<Longrightarrow> Stop answer c = (answer, c\<lparr>stopped := True\<rparr>, [EngineStop (containerID c) 0])"
  by (simp add: Stop_def)

lemma Stops_stopped:
  "stopped c \<Longrightarrow> Stops answers c = (replicate (length answers) (Some (already_stopped c)), c, [])"
  by (induction answers) (simp_all add: Stop_stopped)

lemma already_stopped_flag: "already_stopped (c\<lparr>stopped := b\<rparr>) = already_stopped c"
  by (simp add: already_stopped_def GetName_def)

text \<open>
  C2. For a controller that has not been stopped, the first call of \<^verbatim>\<open>Stop\<close> asks
  the engine to stop the container, with a grace period of zero, and returns the
  engine's answer; every later call returns the "already stopped" error and asks the
  engine nothing; over all the calls the engine is asked exactly once.
\<close>

theorem Stop_once:
  assumes "\<not> stopped c"
  shows "Stops (answer # answers) c =
           (answer # replicate (length answers) (Some (already_stopped c)),
            c\<lparr>stopped := True\<rparr>,
            [EngineStop (containerID c) 0])"
proof -
  have "stopped (c\<lparr>stopped := True\<rparr>)" by simp
  from Stops_stopped [OF this, of answers] show ?thesis
    by (simp add: Stop_first [OF assms] already_stopped_flag)
qed

theorem Stop_once_witness:
  "\<not> stopped (created_container ''0123456789abcdef'') \<and>
   Stops (Some (EngineError ''timeout'') # [None, None]) (created_container ''0123456789abcdef'') =
     (Some (EngineError ''timeout'') # replicate (length [None, None :: err option]) (Some (already_stopped (created_container ''0123456789abcdef''))),
      (created_container ''0123456789abcdef'')\<lparr>stopped := True\<rparr>,
      [EngineStop (containerID (created_container ''0123456789abcdef'')) 0])"
proof -
  have h: "\<not> stopped (created_container ''0123456789abcdef'')"
    by (simp add: created_container_def CreateContainer_def setupDebug_def NewBaseContainer_def Let_def)
  show ?thesis by (rule conjI [OF h Stop_once [OF h]])
qed

subsection \<open>wait\<close>

text \<open>
  C3, as stated, fails: when the engine reports a status, the task sends nil whatever
  the status says. A container that exits with status 1 resolves the exit channel to nil.
\<close>

theorem wait_nil_on_failed_exit:
  "fst (wait (created_container ''0123456789abcdef'') (WaitCh \<lparr>StatusCode = 1, StatusError = None\<rparr>)) = None \<and>
   \<not> clean_exit (WaitCh \<lparr>StatusCode = 1, StatusError = None\<rparr>)"
  by (simp add: wait_def clean_exit_def Let_def)

text \<open>
  C3, amended. The exit-wait task delivers nil exactly when the engine's wait reported a
  status (its code and its error are logged only), and delivers the engine's error,
  wrapped and tagged with the container name, when the engine's error channel fired.
\<close>

theorem wait_delivers:
  "(fst (wait c w) = None) = (case w of ErrCh e \<Rightarrow> False | WaitCh status \<Rightarrow> True) \<and>
   fst (wait c (ErrCh e)) = Some (ErrCtx [(''container-name'', GetName c)] (Wrap e ''container process exited with error'')) \<and>
   fst (wait c (WaitCh status)) = None"
  by (cases w) (simp_all add: wait_def Let_def)

subsection \<open>StartContainer\<close>



lemma engine_stops_simps:
  "engine_stops [] = []"
  "engine_stops (EngineStop i g # evs) = EngineStop i g # engine_stops evs"
  "engine_stops (Stdout s # evs) = engine_stops evs"
  "engine_stops (Stderr s # evs) = engine_stops evs"
  "engine_stops (StderrError eo args # evs) = engine_stops evs"
  "engine_stops (OsStdout s # evs) = engine_stops evs"
  "engine_stops (EngineCreate # evs) = engine_stops evs"
  "engine_stops (EngineStart i n # evs) = engine_stops evs"
  "engine_stops (StreamLogsStarted i # evs) = engine_stops evs"
  "engine_stops (WaitStarted i # evs) = engine_stops evs"
  "engine_stops (NetworkAddContainer oi # evs) = engine_stops evs"
  "engine_stops (CloseReady # evs) = engine_stops evs"
  "engine_stops (CancelLogs # evs) = engine_stops evs"
  by (simp_all add: engine_stops_def)


lemma engine_stops_LogError: "engine_stops (snd (LogError c e args)) = []"
  by (simp add: LogError_def engine_stops_simps split: option.splits)




















text \<open>
  C10. If the engine's start fails, \<^verbatim>\<open>StartContainer\<close> returns the error wrapped,
  the controller is unchanged (endpoint maps, container address, stopped flag and
  every other field), and the call has done nothing but, in debug mode, write the
  banner, and ask the engine to start: no task started, nothing registered with the
  network, the ready channel not closed, the engine not asked to stop.
\<close>

theorem StartContainer_start_fails:
  assumes "started env = Inl e"
  shows "fst (StartContainer env ready_ch c) = Returned (Some (Wrap e ''start container'')) \<and>
         fst (snd (StartContainer env ready_ch c)) = c \<and>
         only_start_request (snd (snd (StartContainer env ready_ch c)))"
  using assms
  by (simp add: StartContainer_def Let_def only_start_request_def LogStdout_def split: option.splits)


theorem StartContainer_start_fails_witness:
  "started failing_env = Inl (EngineError ''no such container'') \<and>
   fst (StartContainer failing_env (Some ChanOpen) (created_container ''0123456789abcdef'')) =
     Returned (Some (Wrap (EngineError ''no such container'') ''start container'')) \<and>
   fst (snd (StartContainer failing_env (Some ChanOpen) (created_container ''0123456789abcdef''))) =
     created_container ''0123456789abcdef'' \<and>
   only_start_request (snd (snd (StartContainer failing_env (Some ChanOpen) (created_container ''0123456789abcdef''))))"
proof -
  have a: "started failing_env = Inl (EngineError ''no such container'')" by (simp add: failing_env_def)
  show ?thesis by (rule conjI [OF a StartContainer_start_fails [OF a]])
qed

lemma setupDebug_frame:
  "Ctx (fst (setupDebug pk f c)) = Ctx c" "Ready (fst (setupDebug pk f c)) = Ready c"
  "portnames (fst (setupDebug pk f c)) = portnames c"
  "DebugPort (fst (setupDebug pk f c)) = DebugPort c"
  by (simp_all add: setupDebug_def Let_def split: option.splits)


lemma CreateContainer_unfold:
  "CreateContainer pk f created c =
     (let c3 = c\<lparr>Ctx := (if Ctx c = None then Some BackgroundContext else Ctx c),
                  Ready := (if Ready c = None then Some default_ready else Ready c),
                  portnames := Names (Ports c)\<rparr>;
          d = setupDebug pk f c3
      in (case created of Inl e \<Rightarrow> Some (Wrap e ''create container'') | Inr cid \<Rightarrow> None,
          case created of Inl e \<Rightarrow> fst d | Inr cid \<Rightarrow> (fst d)\<lparr>containerID := cid\<rparr>,
          snd d @ [EngineCreate]))"
  by (cases created) (simp_all add: CreateContainer_def Let_def)

lemma CreateContainer_no_debug:
  assumes "\<not> Enabled (DebugPort c)"
  shows "Ports (fst (snd (CreateContainer pk f created c))) = Ports c"
    and "Cmd (fst (snd (CreateContainer pk f created c))) = Cmd c"
    and "StartTimeout (fst (snd (CreateContainer pk f created c))) = StartTimeout c"
  using assms by (cases created; simp add: CreateContainer_unfold Let_def setupDebug_def)+




text \<open>
  C9. \<^verbatim>\<open>CreateContainer\<close> installs the default probe when none is set. Its channel
  is closed five seconds after the task entered its \<^verbatim>\<open>select\<close> when the context
  is never cancelled or is cancelled later than that; when the context is cancelled
  before the five seconds have passed the channel is never closed.
\<close>

theorem default_probe:
  "Second = 1000000000 \<and> ready None tie = Some (5 * Second) \<and>
   (t < 5 * Second \<longrightarrow> ready (Some t) tie = None) \<and>
   (5 * Second < t \<longrightarrow> ready (Some t) tie = Some (5 * Second)) \<and>
   (Ready c = None \<longrightarrow> Ready (fst (snd (CreateContainer pk f created c))) = Some default_ready)"
proof -
  have "Ready (fst (snd (CreateContainer pk f created c))) = (if Ready c = None then Some default_ready else Ready c)"
    by (cases created) (simp_all add: CreateContainer_unfold Let_def setupDebug_frame)
  then show ?thesis by (simp add: ready_def ready_select_def Second_def)
qed

theorem default_probe_witness:
  "(1::nat) < 5 * Second \<and> ready (Some 1) True = None \<and>
   5 * Second < 6000000000 \<and> ready (Some 6000000000) True = Some (5 * Second) \<and>
   Ready (NewBaseContainer ''testnet'' ''172.16.0.1'') = None \<and>
   Ready (fst (snd (CreateContainer test_ports [] (Inr ''0123456789abcdef'') (NewBaseContainer ''testnet'' ''172.16.0.1'')))) = Some default_ready"
proof -
  have a: "(1::nat) < 5 * Second" "5 * Second < 6000000000" by (simp_all add: Second_def)
  have b: "Ready (NewBaseContainer ''testnet'' ''172.16.0.1'') = None" by (simp add: NewBaseContainer_def)
  from default_probe [of True 1] a(1) have 1: "ready (Some 1) True = None" by blast
  from default_probe [of True 6000000000 "NewBaseContainer ''testnet'' ''172.16.0.1''" test_ports "[]" "Inr ''0123456789abcdef''"] a(2) b
  have 2: "ready (Some 6000000000) True = Some (5 * Second)"
    "Ready (fst (snd (CreateContainer test_ports [] (Inr ''0123456789abcdef'') (NewBaseContainer ''testnet'' ''172.16.0.1'')))) = Some default_ready"
    by blast+
  from a b 1 2 show ?thesis by blast
qed

end
